theory Spec2Isabelle
  imports Complex_Main "HOL-Library.Sublist" "HOL-Library.Log_Nat"
begin

section \<open>Data model (types.ts)\<close>

text \<open>
  \<^verbatim>\<open>PaymentMode = 'Cash' | 'UPI'\<close>, \<^verbatim>\<open>PaymentStatus = 'I Paid' | 'They Paid' | 'Split'\<close>
  and \<^verbatim>\<open>View = 'home' | 'add' | 'person'\<close> are string-literal unions; each becomes a
  datatype, with the literal it stands for given by a name function.
\<close>

datatype PaymentMode = Cash | UPI

datatype PaymentStatus = I_Paid | They_Paid | Split

datatype View = View_home | View_add | View_person

fun modeName :: "PaymentMode \<Rightarrow> string" where
  "modeName Cash = ''Cash''"
| "modeName UPI = ''UPI''"

text \<open>
  A JavaScript \<^verbatim>\<open>number\<close>: a double. A finite double is the rational it denotes, and an
  operation that rounds applies the rounding to the nearest double to its exact result.
  The two infinities are not part of the model. \<open>NaN\<close> is kept: it is what \<^verbatim>\<open>parseFloat\<close>
  returns on text that is no number, it absorbs every arithmetic operation, and every
  comparison with it is false.
\<close>

datatype number = NaN | Num rat

text \<open>
  Negation is exact on doubles. The exact difference \<open>x - y\<close> is what the program computes
  where both operands are clock readings, whole numbers of milliseconds: doubles
  subtract such numbers without rounding.
\<close>

instantiation number :: "{minus, uminus}"
begin

fun minus_number :: "number \<Rightarrow> number \<Rightarrow> number" where
  "minus_number (Num x) (Num y) = Num (x - y)"
| "minus_number _ _ = NaN"

fun uminus_number :: "number \<Rightarrow> number" where
  "uminus_number (Num x) = Num (- x)"
| "uminus_number NaN = NaN"

instance ..

end

text \<open>
  The exact quotient, and \<^verbatim>\<open>x > y\<close> and \<^verbatim>\<open>x < y\<close> on numbers. The program divides by
  the non-zero constants 2 and 86400000 only; a zero divisor (an infinity or NaN in
  JavaScript) is mapped to \<open>NaN\<close>. The exact quotient stands for the age of a record in
  days, which the program only compares with 3 and 7: the rounding of the quotient of a
  whole number of milliseconds by 86400000 does not move it across either.
\<close>

fun num_div :: "number \<Rightarrow> number \<Rightarrow> number" where
  "num_div (Num x) (Num y) = (if y = 0 then NaN else Num (x / y))"
| "num_div _ _ = NaN"

fun num_lt :: "number \<Rightarrow> number \<Rightarrow> bool" where
  "num_lt (Num x) (Num y) = (x < y)"
| "num_lt _ _ = False"

definition num_gt :: "number \<Rightarrow> number \<Rightarrow> bool" where
  "num_gt x y = num_lt y x"

fun Math_abs :: "number \<Rightarrow> number" where
  "Math_abs (Num x) = Num \<bar>x\<bar>"
| "Math_abs NaN = NaN"

text \<open>
  \<^verbatim>\<open>x + y\<close>, \<^verbatim>\<open>x - y\<close> and \<^verbatim>\<open>x / y\<close> on doubles: the exact result, rounded. The rounding
  to the nearest double is the argument \<open>toDouble\<close>.
\<close>

fun num_add :: "(rat \<Rightarrow> rat) \<Rightarrow> number \<Rightarrow> number \<Rightarrow> number" where
  "num_add toDouble (Num x) (Num y) = Num (toDouble (x + y))"
| "num_add toDouble _ _ = NaN"

fun num_sub :: "(rat \<Rightarrow> rat) \<Rightarrow> number \<Rightarrow> number \<Rightarrow> number" where
  "num_sub toDouble (Num x) (Num y) = Num (toDouble (x - y))"
| "num_sub toDouble _ _ = NaN"

fun num_quot :: "(rat \<Rightarrow> rat) \<Rightarrow> number \<Rightarrow> number \<Rightarrow> number" where
  "num_quot toDouble (Num x) (Num y) = (if y = 0 then NaN else Num (toDouble (x / y)))"
| "num_quot toDouble _ _ = NaN"

text \<open>
  \<^verbatim>\<open>interface Expense\<close>. The object handed to \<^verbatim>\<open>onSave\<close> has type
  \<^verbatim>\<open>Omit<Expense, 'id' | 'timestamp'>\<close>; it is the parent record, and \<open>expense\<close> extends
  it by the two fields that \<^verbatim>\<open>addExpense\<close> adds. The optional fields \<^verbatim>\<open>label?\<close> and
  \<^verbatim>\<open>proof?\<close> are options. The fields \<^verbatim>\<open>id\<close> and \<^verbatim>\<open>proof\<close> are primed, the plain names being
  taken.
\<close>

record new_expense =
  amount :: number
  person :: string
  mode :: PaymentMode
  label :: "string option"
  status :: PaymentStatus
  proof' :: "string option"

record expense = new_expense +
  id' :: string
  timestamp :: number

section \<open>Strings and number formatting\<close>

text \<open>
  Strings are Isabelle strings: lists of 8-bit characters, holding the text in UTF-8.
\<close>

definition digitChar :: "nat \<Rightarrow> char" where
  "digitChar d = char_of (48 + d)"

definition isDigit :: "char \<Rightarrow> bool" where
  "isDigit c = (48 \<le> (of_char c :: nat) \<and> (of_char c :: nat) \<le> 57)"

definition digitVal :: "char \<Rightarrow> nat" where
  "digitVal c = of_char c - 48"

text \<open>The decimal digits of a natural number, most significant first, and their value.\<close>

fun showNat :: "nat \<Rightarrow> string" where
  "showNat n = (if n < 10 then [digitChar n] else showNat (n div 10) @ [digitChar (n mod 10)])"

declare showNat.simps [simp del]

definition digitsVal :: "string \<Rightarrow> nat" where
  "digitsVal ds = foldl (\<lambda>n c. 10 * n + digitVal c) 0 ds"

text \<open>
  \<^verbatim>\<open>Number.prototype.toFixed(0)\<close>: \<^verbatim>\<open>"NaN"\<close> for NaN; otherwise a minus sign when the
  number is negative, followed, for a magnitude of at least \<open>10^21\<close>, by the result of
  \<^verbatim>\<open>toString\<close> on the magnitude, and else by the digits of the integer \<open>n\<close> for which
  \<open>n - |x|\<close> is closest to zero, the larger one on a tie.
  \<^verbatim>\<open>Number.prototype.toString\<close> prints the shortest decimal that reads back as the same
  double, which exact rationals cannot express; it is the parameter \<open>toString\<close>.
\<close>

definition toFixed0 :: "(number \<Rightarrow> string) \<Rightarrow> number \<Rightarrow> string" where
  "toFixed0 toString v =
     (case v of
        NaN \<Rightarrow> ''NaN''
      | Num x \<Rightarrow>
          (if x < 0 then ''-'' else '''') @
          (if \<bar>x\<bar> \<ge> 10 ^ 21 then toString (Num \<bar>x\<bar>)
           else showNat (nat \<lfloor>\<bar>x\<bar> + 1 / 2\<rfloor>)))"

text \<open>The rupee sign U+20B9, as its three UTF-8 bytes.\<close>

definition rupee :: string where
  "rupee = [char_of (0xE2 :: nat), char_of (0x82 :: nat), char_of (0xB9 :: nat)]"

text \<open>
  \<^verbatim>\<open>
  const balanceText = balance > 0 ? `Owes you R${balance.toFixed(0)}`
    : balance < 0 ? `You owe R${Math.abs(balance).toFixed(0)}` : `Settled Up`;
  \<close>
  where \<^verbatim>\<open>R\<close> stands for the rupee sign of the source.
\<close>

definition balanceText :: "(number \<Rightarrow> string) \<Rightarrow> number \<Rightarrow> string" where
  "balanceText toString balance =
     (if num_gt balance (Num 0) then ''Owes you '' @ rupee @ toFixed0 toString balance
      else if num_lt balance (Num 0)
        then ''You owe '' @ rupee @ toFixed0 toString (Math_abs balance)
      else ''Settled Up'')"

text \<open>
  \<^verbatim>\<open>String.prototype.includes\<close> holds when the argument occurs as a contiguous part of
  the string.
\<close>

definition str_includes :: "string \<Rightarrow> string \<Rightarrow> bool" where
  "str_includes s searchString = sublist searchString s"

section \<open>The platform\<close>

text \<open>
  The functions of the JavaScript platform that depend on Unicode tables or on the
  format of doubles are arguments of the model, collected in one record:
  \<^verbatim>\<open>String.prototype.toLowerCase\<close>, \<^verbatim>\<open>String.prototype.trim\<close>, the removal of leading
  white space that \<^verbatim>\<open>parseFloat\<close> starts with, \<^verbatim>\<open>Number.prototype.toString\<close>, and the
  rounding of a rational to the nearest double.
\<close>

record platform =
  toLowerCase :: "string \<Rightarrow> string"
  trim :: "string \<Rightarrow> string"
  trimStart :: "string \<Rightarrow> string"
  numberToString :: "number \<Rightarrow> string"
  toDouble :: "rat \<Rightarrow> rat"

text \<open>
  One platform to evaluate the model on. Its string functions are those of the platform
  on ASCII text: they fold \<^verbatim>\<open>A\<close> to \<^verbatim>\<open>Z\<close> and take tab, line feed, vertical tab, form
  feed, carriage return and space for white space. Its \<open>numberToString\<close> is that of the
  platform on whole numbers of magnitude below \<open>10^21\<close>.
\<close>

definition asciiLowerChar :: "char \<Rightarrow> char" where
  "asciiLowerChar c =
     (if 65 \<le> (of_char c :: nat) \<and> (of_char c :: nat) \<le> 90
      then char_of ((of_char c :: nat) + 32) else c)"

definition asciiLowerCase :: "string \<Rightarrow> string" where
  "asciiLowerCase s = map asciiLowerChar s"

definition asciiWhiteSpace :: "char \<Rightarrow> bool" where
  "asciiWhiteSpace c = ((of_char c :: nat) \<in> {9, 10, 11, 12, 13, 32})"

definition asciiTrimStart :: "string \<Rightarrow> string" where
  "asciiTrimStart s = dropWhile asciiWhiteSpace s"

definition asciiTrim :: "string \<Rightarrow> string" where
  "asciiTrim s = rev (dropWhile asciiWhiteSpace (rev (dropWhile asciiWhiteSpace s)))"

definition wholeNumberString :: "number \<Rightarrow> string" where
  "wholeNumberString v =
     (case v of
        NaN \<Rightarrow> ''NaN''
      | Num x \<Rightarrow> (if x < 0 then ''-'' else []) @ showNat (nat \<lfloor>\<bar>x\<bar>\<rfloor>))"

text \<open>
  The rounding to the nearest double, ties to the even significand: 53 significant bits
  from exponent \<open>-1022\<close> on, steps of \<open>2^-1074\<close> below. A result beyond the largest double,
  an infinity on the platform, is outside the model.
\<close>

definition pow2 :: "int \<Rightarrow> rat" where
  "pow2 e = (if 0 \<le> e then 2 ^ nat e else 1 / 2 ^ nat (- e))"

definition floorLog2 :: "rat \<Rightarrow> int" where
  "floorLog2 a =
     (let (p, q) = quotient_of a;
          d = bitlen p - bitlen q
      in if pow2 d \<le> a then d else d - 1)"

definition roundHalfEven :: "rat \<Rightarrow> int" where
  "roundHalfEven r =
     (let n = \<lfloor>r\<rfloor>; f = r - of_int n
      in if f < 1 / 2 then n
         else if 1 / 2 < f then n + 1
         else if even n then n else n + 1)"

definition roundDouble :: "rat \<Rightarrow> rat" where
  "roundDouble x =
     (if x = 0 then 0
      else
        (let a = \<bar>x\<bar>;
             e = max (floorLog2 a) (- 1022);
             q = pow2 (e - 52);
             n = roundHalfEven (a / q)
         in (if x < 0 then - 1 else 1) * of_int n * q))"

definition ascii :: platform where
  "ascii =
     \<lparr> toLowerCase = asciiLowerCase, trim = asciiTrim, trimStart = asciiTrimStart,
       numberToString = wholeNumberString, toDouble = roundDouble \<rparr>"

section \<open>Balance (PersonDetail)\<close>

text \<open>
  \<^verbatim>\<open>
  const balance = expenses.reduce((acc, curr) => {
    if (curr.status === 'They Paid') return acc - curr.amount;
    if (curr.status === 'Split') return acc + (curr.amount / 2);
    return acc + curr.amount;
  }, 0);
  \<close>
  Every operation rounds its result to a double.
\<close>

definition balance_step :: "platform \<Rightarrow> number \<Rightarrow> expense \<Rightarrow> number" where
  "balance_step P acc cur =
     (if status cur = They_Paid then num_sub (toDouble P) acc (amount cur)
      else if status cur = Split
        then num_add (toDouble P) acc (num_quot (toDouble P) (amount cur) (Num 2))
      else num_add (toDouble P) acc (amount cur))"

definition computeBalance :: "platform \<Rightarrow> expense list \<Rightarrow> number" where
  "computeBalance P es = foldl (balance_step P) (Num 0) es"

text \<open>The contribution of one record, as the specification words it.\<close>

definition contribution :: "platform \<Rightarrow> expense \<Rightarrow> number" where
  "contribution P e =
     (case status e of
        They_Paid \<Rightarrow> - amount e
      | Split \<Rightarrow> num_quot (toDouble P) (amount e) (Num 2)
      | I_Paid \<Rightarrow> amount e)"

text \<open>
  \<^verbatim>\<open>parseFloat\<close>: remove leading white space, then read the longest prefix that is a
  decimal literal: an optional sign, digits with an optional fraction (or a fraction
  alone), and an exponent when \<^verbatim>\<open>e\<close> or \<^verbatim>\<open>E\<close> is followed by an optionally signed
  digit. The result is the double nearest to the value of the literal; without such a
  prefix it is NaN. The literal \<^verbatim>\<open>Infinity\<close>, whose value the model of numbers does not
  have, is not recognised.
\<close>

definition parseSign :: "string \<Rightarrow> bool \<times> string" where
  "parseSign s =
     (case s of
        [] \<Rightarrow> (False, [])
      | c # r \<Rightarrow>
          if c = CHR ''-'' then (True, r)
          else if c = CHR ''+'' then (False, r)
          else (False, s))"

definition parseExponent :: "string \<Rightarrow> int" where
  "parseExponent s =
     (case s of
        [] \<Rightarrow> 0
      | c # r \<Rightarrow>
          if c = CHR ''e'' \<or> c = CHR ''E'' then
            (let (neg, r') = parseSign r;
                 ds = takeWhile isDigit r'
             in if ds = [] then 0
                else if neg then - int (digitsVal ds) else int (digitsVal ds))
          else 0)"

definition scale10 :: "rat \<Rightarrow> int \<Rightarrow> rat" where
  "scale10 m e = (if 0 \<le> e then m * 10 ^ nat e else m / 10 ^ nat (- e))"

definition parseFloat :: "platform \<Rightarrow> string \<Rightarrow> number" where
  "parseFloat P string =
     (let trimmed = trimStart P string;
          (neg, u) = parseSign trimmed;
          ip = takeWhile isDigit u;
          r1 = dropWhile isDigit u;
          (fp, r2) =
            (case r1 of
               [] \<Rightarrow> ([], [])
             | c # r \<Rightarrow>
                 if c = CHR ''.'' then (takeWhile isDigit r, dropWhile isDigit r)
                 else ([], r1))
      in if ip = [] \<and> fp = [] then NaN
         else
           (let m = of_nat (digitsVal ip) + of_nat (digitsVal fp) / 10 ^ length fp;
                v = scale10 m (parseExponent r2)
            in Num (toDouble P (if neg then - v else v))))"

section \<open>The form of AddExpense\<close>

text \<open>
  The state of the component \<^verbatim>\<open>AddExpense\<close>: the \<^verbatim>\<open>useState\<close> cells \<^verbatim>\<open>amount\<close>,
  \<^verbatim>\<open>person\<close>, \<^verbatim>\<open>mode\<close>, \<^verbatim>\<open>label\<close>, \<^verbatim>\<open>status\<close> and \<^verbatim>\<open>proof\<close>; the first, second and
  fourth hold the raw text of their input elements.
\<close>

record AddExpense_state =
  amount_st :: string
  person_st :: string
  mode_st :: PaymentMode
  label_st :: string
  status_st :: PaymentStatus
  proof_st :: "string option"

text \<open>
  \<^verbatim>\<open>
  const handleSave = () => {
    if (!amount || !person) return;
    onSave({ amount: parseFloat(amount), person: person.trim(), mode,
             label: label.trim(), status, proof });
  };
  \<close>
  A string is falsy exactly when it is empty. The result is the argument of \<^verbatim>\<open>onSave\<close>,
  or \<open>None\<close> when the guard returns before the call.
\<close>

definition handleSave :: "platform \<Rightarrow> AddExpense_state \<Rightarrow> new_expense option" where
  "handleSave P f =
     (if amount_st f = [] \<or> person_st f = [] then None
      else Some \<lparr> amount = parseFloat P (amount_st f),
                  person = trim P (person_st f),
                  mode = mode_st f,
                  label = Some (trim P (label_st f)),
                  status = status_st f,
                  proof' = proof_st f \<rparr>)"

section \<open>The state of App and the store\<close>

text \<open>
  \<^verbatim>\<open>localStorage\<close> holds text. The model keeps, for each text, what \<^verbatim>\<open>JSON.parse\<close> makes
  of it: the empty string, a text that is not JSON, or the serialisation of a list of
  records, for which \<^verbatim>\<open>JSON.parse\<close> after \<^verbatim>\<open>JSON.stringify\<close> gives the list back. Text
  that is JSON of another shape is not represented. An absent key is \<open>None\<close>
  (\<^verbatim>\<open>getItem\<close> returns \<^verbatim>\<open>null\<close>).
\<close>

datatype storage_text = Text_empty | Text_malformed | Text_json "expense list"

datatype error = SyntaxError | TypeError

fun JSON_parse :: "storage_text \<Rightarrow> error + expense list" where
  "JSON_parse Text_empty = Inl SyntaxError"
| "JSON_parse Text_malformed = Inl SyntaxError"
| "JSON_parse (Text_json xs) = Inr xs"

definition JSON_stringify :: "expense list \<Rightarrow> storage_text" where
  "JSON_stringify xs = Text_json xs"

definition STORAGE_KEY :: string where
  "STORAGE_KEY = ''did-i-pay-expenses''"

definition ARCHIVE_KEY :: string where
  "ARCHIVE_KEY = ''did-i-pay-archive''"

text \<open>
  The state of \<^verbatim>\<open>App\<close>: its \<^verbatim>\<open>useState\<close> cells and its two refs, the store, and the
  timeouts of the window: \<open>timeouts\<close> are the handles still pending (each one set by
  \<^verbatim>\<open>archiveData\<close>, with the callback \<^verbatim>\<open>() => setShowUndo(false)\<close>), \<open>timeoutSeq\<close> the last
  handle issued. Handles are positive.
\<close>

record App_state =
  view :: View
  expenses :: "expense list"
  selectedPerson :: "string option"
  searchQuery :: string
  showUndo :: bool
  lastArchivedData :: "expense list"
  undoTimeoutRef :: "nat option"
  localStorage :: "string \<Rightarrow> storage_text option"
  timeouts :: "nat set"
  timeoutSeq :: nat

definition setItem :: "string \<Rightarrow> storage_text \<Rightarrow> App_state \<Rightarrow> App_state" where
  "setItem k v s = s\<lparr>localStorage := (localStorage s)(k \<mapsto> v)\<rparr>"

text \<open>
  \<^verbatim>\<open>setExpenses\<close>, together with the effect that follows every change of \<^verbatim>\<open>expenses\<close>:
  \<^verbatim>\<open>useEffect(() => { localStorage.setItem(STORAGE_KEY, JSON.stringify(expenses)); }, [expenses])\<close>.
\<close>

definition setExpenses :: "expense list \<Rightarrow> App_state \<Rightarrow> App_state" where
  "setExpenses xs s = setItem STORAGE_KEY (JSON_stringify xs) (s\<lparr>expenses := xs\<rparr>)"

text \<open>\<^verbatim>\<open>localStorage.getItem(k) || '[]'\<close>: \<^verbatim>\<open>null\<close> and the empty string are falsy.\<close>

definition getItemOrEmptyArray :: "string \<Rightarrow> App_state \<Rightarrow> storage_text" where
  "getItemOrEmptyArray k s =
     (case localStorage s k of
        None \<Rightarrow> Text_json []
      | Some Text_empty \<Rightarrow> Text_json []
      | Some t \<Rightarrow> t)"

text \<open>
  The first effect of \<^verbatim>\<open>App\<close>, run once on mount:
  \<^verbatim>\<open>
  const saved = localStorage.getItem(STORAGE_KEY);
  if (saved) { setExpenses(JSON.parse(saved)); }
  \<close>
  There is no \<^verbatim>\<open>try\<close> around \<^verbatim>\<open>JSON.parse\<close>: what it throws leaves the effect. A result
  is the error thrown, if any, and the state reached.
\<close>

definition load :: "App_state \<Rightarrow> error option \<times> App_state" where
  "load s =
     (case localStorage s STORAGE_KEY of
        None \<Rightarrow> (None, s)
      | Some saved \<Rightarrow>
          if saved = Text_empty then (None, s)
          else (case JSON_parse saved of
                  Inl e \<Rightarrow> (Some e, s)
                | Inr xs \<Rightarrow> (None, setExpenses xs s)))"

text \<open>
  \<^verbatim>\<open>
  const addExpense = (expense) => {
    const newExpense = { ...expense, id: Math.random().toString(36).substr(2, 9),
                         timestamp: Date.now() };
    setExpenses([newExpense, ...expenses]);
    setView('home');
  };
  \<close>
  The random identifier and the clock reading are arguments.
\<close>

definition addExpense :: "new_expense \<Rightarrow> string \<Rightarrow> int \<Rightarrow> App_state \<Rightarrow> App_state" where
  "addExpense expense rid now s =
     (let newExpense =
            \<lparr> amount = amount expense, person = person expense, mode = mode expense,
              label = label expense, status = status expense, proof' = proof' expense,
              id' = rid, timestamp = Num (of_int now) \<rparr>
      in (setExpenses (newExpense # expenses s) s)\<lparr>view := View_home\<rparr>)"

section \<open>Archive and undo\<close>

definition clearTimeout :: "nat \<Rightarrow> App_state \<Rightarrow> App_state" where
  "clearTimeout h s = s\<lparr>timeouts := timeouts s - {h}\<rparr>"

text \<open>\<^verbatim>\<open>if (undoTimeoutRef.current) clearTimeout(undoTimeoutRef.current)\<close>; 0 is falsy.\<close>

definition clearUndoTimeout :: "App_state \<Rightarrow> App_state" where
  "clearUndoTimeout s =
     (case undoTimeoutRef s of
        None \<Rightarrow> s
      | Some h \<Rightarrow> if h = 0 then s else clearTimeout h s)"

text \<open>\<^verbatim>\<open>undoTimeoutRef.current = window.setTimeout(() => setShowUndo(false), 10000)\<close>\<close>

definition setUndoTimeout :: "App_state \<Rightarrow> App_state" where
  "setUndoTimeout s =
     (let h = Suc (timeoutSeq s)
      in s\<lparr>timeouts := insert h (timeouts s), timeoutSeq := h, undoTimeoutRef := Some h\<rparr>)"

text \<open>The timeout with handle \<open>h\<close> expires: its callback runs if it is still pending.\<close>

definition timeoutFired :: "nat \<Rightarrow> App_state \<Rightarrow> App_state" where
  "timeoutFired h s =
     (if h \<in> timeouts s then s\<lparr>showUndo := False, timeouts := timeouts s - {h}\<rparr> else s)"

text \<open>
  \<^verbatim>\<open>
  const archiveData = () => {
    if (expenses.length === 0) return;
    lastArchivedData.current = [...expenses];
    const currentArchive = JSON.parse(localStorage.getItem(ARCHIVE_KEY) || '[]');
    localStorage.setItem(ARCHIVE_KEY, JSON.stringify([...currentArchive, ...expenses]));
    setExpenses([]);
    setShowUndo(true);
    if (undoTimeoutRef.current) clearTimeout(undoTimeoutRef.current);
    undoTimeoutRef.current = window.setTimeout(() => setShowUndo(false), 10000);
  };
  \<close>
  When \<^verbatim>\<open>JSON.parse\<close> throws, the assignment to the ref has already happened.
\<close>

definition archiveData :: "App_state \<Rightarrow> error option \<times> App_state" where
  "archiveData s =
     (if length (expenses s) = 0 then (None, s)
      else
        (let s1 = s\<lparr>lastArchivedData := expenses s\<rparr>
         in case JSON_parse (getItemOrEmptyArray ARCHIVE_KEY s1) of
              Inl e \<Rightarrow> (Some e, s1)
            | Inr currentArchive \<Rightarrow>
                (let s2 = setItem ARCHIVE_KEY (JSON_stringify (currentArchive @ expenses s)) s1;
                     s3 = setExpenses [] s2;
                     s4 = s3\<lparr>showUndo := True\<rparr>;
                     s5 = clearUndoTimeout s4
                 in (None, setUndoTimeout s5))))"

text \<open>
  \<^verbatim>\<open>Array.prototype.slice(0, end)\<close>: a negative \<^verbatim>\<open>end\<close> counts from the end of the array,
  and the result is cut to the bounds of the array.
\<close>

definition slice0 :: "'a list \<Rightarrow> int \<Rightarrow> 'a list" where
  "slice0 xs endIdx =
     (let len = int (length xs);
          final = (if endIdx < 0 then max (len + endIdx) 0 else min endIdx len)
      in take (nat final) xs)"

text \<open>
  \<^verbatim>\<open>
  const undoArchive = () => {
    if (lastArchivedData.current.length > 0) {
      setExpenses(lastArchivedData.current);
      const currentArchive = JSON.parse(localStorage.getItem(ARCHIVE_KEY) || '[]');
      const newArchive = currentArchive.slice(0, currentArchive.length - lastArchivedData.current.length);
      localStorage.setItem(ARCHIVE_KEY, JSON.stringify(newArchive));
      lastArchivedData.current = [];
      setShowUndo(false);
      if (undoTimeoutRef.current) clearTimeout(undoTimeoutRef.current);
    }
  };
  \<close>
\<close>

definition undoArchive :: "App_state \<Rightarrow> error option \<times> App_state" where
  "undoArchive s =
     (if length (lastArchivedData s) > 0 then
        (let s1 = setExpenses (lastArchivedData s) s
         in case JSON_parse (getItemOrEmptyArray ARCHIVE_KEY s1) of
              Inl e \<Rightarrow> (Some e, s1)
            | Inr currentArchive \<Rightarrow>
                (let newArchive =
                       slice0 currentArchive
                         (int (length currentArchive) - int (length (lastArchivedData s1)));
                     s2 = setItem ARCHIVE_KEY (JSON_stringify newArchive) s1;
                     s3 = s2\<lparr>lastArchivedData := []\<rparr>;
                     s4 = s3\<lparr>showUndo := False\<rparr>
                 in (None, clearUndoTimeout s4)))
      else (None, s))"

text \<open>
  The Undo button exists only while \<^verbatim>\<open>showUndo\<close> holds:
  \<^verbatim>\<open>{showUndo && ( ... <button onClick={undoArchive}>Undo</button> ... )}\<close>.
  A user's request to undo reaches \<^verbatim>\<open>undoArchive\<close> through this button only.
\<close>

definition undoClicked :: "App_state \<Rightarrow> error option \<times> App_state" where
  "undoClicked s = (if showUndo s then undoArchive s else (None, s))"

text \<open>The archive set: the records stored under the archive key.\<close>

definition archiveSet :: "App_state \<Rightarrow> error + expense list" where
  "archiveSet s = JSON_parse (getItemOrEmptyArray ARCHIVE_KEY s)"

section \<open>Search (filteredExpenses)\<close>

text \<open>
  \<^verbatim>\<open>
  const filteredExpenses = useMemo(() => {
    if (!searchQuery) return expenses;
    const query = searchQuery.toLowerCase();
    return expenses.filter(e =>
      e.person.toLowerCase().includes(query) ||
      e.label?.toLowerCase().includes(query) ||
      e.amount.toString().includes(query) ||
      e.mode.toLowerCase().includes(query));
  }, [expenses, searchQuery]);
  \<close>
  With \<^verbatim>\<open>?.\<close> an absent label makes the second disjunct \<^verbatim>\<open>undefined\<close>, which is falsy.
\<close>

definition matchesQuery :: "platform \<Rightarrow> string \<Rightarrow> expense \<Rightarrow> bool" where
  "matchesQuery P query e =
     (str_includes (toLowerCase P (person e)) query
      \<or> (case label e of None \<Rightarrow> False | Some l \<Rightarrow> str_includes (toLowerCase P l) query)
      \<or> str_includes (numberToString P (amount e)) query
      \<or> str_includes (toLowerCase P (modeName (mode e))) query)"

definition filteredExpenses :: "platform \<Rightarrow> string \<Rightarrow> expense list \<Rightarrow> expense list" where
  "filteredExpenses P sq es =
     (if sq = [] then es
      else (let query = toLowerCase P sq
            in filter (matchesQuery P query) es))"

section \<open>Saving from the form\<close>

text \<open>
  After a change of state \<^verbatim>\<open>App\<close> renders again. In the view \<^verbatim>\<open>home\<close> it renders
  \<^verbatim>\<open>Home\<close> on the filtered records, and \<^verbatim>\<open>Home\<close> evaluates, for each of them,
  \<^verbatim>\<open>expense.person[0].toUpperCase()\<close>: on the empty person \<^verbatim>\<open>person[0]\<close> is \<^verbatim>\<open>undefined\<close> and
  the call throws a \<^verbatim>\<open>TypeError\<close>.
\<close>

definition homeThrows :: "platform \<Rightarrow> App_state \<Rightarrow> bool" where
  "homeThrows P s =
     (view s = View_home
      \<and> list_ex (\<lambda>e. person e = []) (filteredExpenses P (searchQuery s) (expenses s)))"

text \<open>
  What a user action leaves: the state of the mounted application, or, when rendering
  threw, the error and the store alone. No error boundary catches an error of
  rendering, so the component tree is unmounted: its state is gone, and the effects of
  the render that threw, the write of the active set to the store among them, do not
  run.
\<close>

datatype outcome = Mounted App_state | Unmounted error "string \<Rightarrow> storage_text option"

text \<open>
  The save button of the form: \<^verbatim>\<open>handleSave\<close> with \<^verbatim>\<open>onSave = addExpense\<close>, and the render
  that follows.
\<close>

definition saveClicked ::
  "platform \<Rightarrow> AddExpense_state \<Rightarrow> string \<Rightarrow> int \<Rightarrow> App_state \<Rightarrow> outcome" where
  "saveClicked P f rid now s =
     (case handleSave P f of
        None \<Rightarrow> Mounted s
      | Some expense \<Rightarrow>
          (let s' = addExpense expense rid now s
           in if homeThrows P s' then Unmounted TypeError (localStorage s) else Mounted s'))"

text \<open>The active set after a user action, if the application is still mounted.\<close>

definition activeSet :: "outcome \<Rightarrow> expense list option" where
  "activeSet out = (case out of Mounted s \<Rightarrow> Some (expenses s) | Unmounted _ _ \<Rightarrow> None)"

section \<open>Reminder (Home)\<close>

text \<open>
  \<^verbatim>\<open>
  const nudgeItem = expenses.find(e => {
    const ageInDays = (Date.now() - e.timestamp) / (1000 * 60 * 60 * 24);
    return ageInDays > 3 && ageInDays < 7;
  });
  \<close>
  The clock reading \<open>now\<close> is an argument, the same for every record of one scan.
\<close>

definition ageInDays :: "int \<Rightarrow> expense \<Rightarrow> number" where
  "ageInDays now e = num_div (Num (of_int now) - timestamp e) (Num (1000 * 60 * 60 * 24))"

definition nudgeItem :: "int \<Rightarrow> expense list \<Rightarrow> expense option" where
  "nudgeItem now es =
     find (\<lambda>e. num_gt (ageInDays now e) (Num 3) \<and> num_lt (ageInDays now e) (Num 7)) es"

section \<open>The specification's reading of the reminder\<close>

text \<open>
  The age of a record in days as the specification gives it,
  \<open>(now - timestamp) / 86400000\<close>, and its condition \<open>3 < age < 7\<close>. A record whose
  timestamp is no number has no age.
\<close>

definition specAge :: "int \<Rightarrow> expense \<Rightarrow> rat option" where
  "specAge now e =
     (case timestamp e of NaN \<Rightarrow> None | Num t \<Rightarrow> Some ((of_int now - t) / 86400000))"

definition qualifies :: "int \<Rightarrow> expense \<Rightarrow> bool" where
  "qualifies now e = (case specAge now e of None \<Rightarrow> False | Some age \<Rightarrow> 3 < age \<and> age < 7)"

section \<open>Sample data\<close>

text \<open>Records and states on which the properties below are evaluated.\<close>

definition sample_rohit :: expense where
  "sample_rohit =
     \<lparr> amount = Num 120, person = ''Rohit'', mode = UPI, label = None, status = I_Paid,
       proof' = None, id' = ''k3x9q0'', timestamp = Num 1000 \<rparr>"

definition sample_asha :: expense where
  "sample_asha =
     \<lparr> amount = Num 200, person = ''Asha'', mode = Cash, label = Some ''tea'',
       status = They_Paid, proof' = None, id' = ''p0q1r2'', timestamp = Num 900 \<rparr>"

text \<open>The state in which \<^verbatim>\<open>App\<close> starts, over a given store.\<close>

definition initialState :: "(string \<Rightarrow> storage_text option) \<Rightarrow> App_state" where
  "initialState store =
     \<lparr> view = View_home, expenses = [], selectedPerson = None, searchQuery = [],
       showUndo = False, lastArchivedData = [], undoTimeoutRef = None,
       localStorage = store, timeouts = {}, timeoutSeq = 0 \<rparr>"

text \<open>A record created the given number of days before \<open>now\<close>.\<close>

definition sample_aged :: "int \<Rightarrow> int \<Rightarrow> expense" where
  "sample_aged now days = sample_rohit\<lparr>timestamp := Num (of_int (now - days * 86400000))\<rparr>"

text \<open>
  Three contents of the form: a person of two spaces, the amount \<^verbatim>\<open>0\<close>, and a person and
  a label with spaces around them.
\<close>

definition sample_form_blank :: AddExpense_state where
  "sample_form_blank =
     \<lparr> amount_st = ''50'', person_st = ''  '', mode_st = UPI, label_st = '' chai '',
       status_st = I_Paid, proof_st = None \<rparr>"



text \<open>
  A state with one active record and one record already archived, and the state after
  two saves, at clock readings 1000 and 2000, on a fresh store.
\<close>

definition sample_state :: App_state where
  "sample_state =
     (initialState (Map.empty(ARCHIVE_KEY \<mapsto> Text_json [sample_asha])))
       \<lparr>expenses := [sample_rohit]\<rparr>"

definition sample_two :: App_state where
  "sample_two =
     addExpense (new_expense.truncate sample_asha) ''p0q1r2'' 2000
       (addExpense (new_expense.truncate sample_rohit) ''k3x9q0'' 1000 (initialState Map.empty))"

section \<open>The specification's reading of the archive\<close>

text \<open>
  The batch that \<^verbatim>\<open>archiveData\<close> appends: what the archive set holds after the call
  beyond what it held before. A batch is oldest-first when no record in it is newer than
  a later one.
\<close>

definition appendedBatch :: "App_state \<Rightarrow> expense list" where
  "appendedBatch s =
     (case (archiveSet s, archiveSet (snd (archiveData s))) of
        (Inr before, Inr after) \<Rightarrow> drop (length before) after
      | _ \<Rightarrow> [])"

definition oldestFirst :: "expense list \<Rightarrow> bool" where
  "oldestFirst es = sorted_wrt (\<lambda>a b. \<not> num_gt (timestamp a) (timestamp b)) es"

section \<open>Properties of the balance\<close>

lemma num_sub_conv_add: "num_sub rd a b = num_add rd a (- b)"
  by (cases a; cases b) simp_all

lemma balance_step_contribution:
  "balance_step P acc e = num_add (toDouble P) acc (contribution P e)"
  by (cases "status e") (simp_all add: balance_step_def contribution_def num_sub_conv_add)

lemma foldl_balance_step:
  "foldl (balance_step P) acc es = foldl (num_add (toDouble P)) acc (map (contribution P) es)"
proof (induction es arbitrary: acc)
  case Nil
  show ?case by simp
next
  case (Cons e es)
  have "foldl (balance_step P) acc (e # es) = foldl (balance_step P) (balance_step P acc e) es"
    by simp
  also have "\<dots> = foldl (num_add (toDouble P)) (balance_step P acc e) (map (contribution P) es)"
    by (rule Cons.IH)
  also have "\<dots> = foldl (num_add (toDouble P)) acc (map (contribution P) (e # es))"
    by (simp add: balance_step_contribution)
  finally show ?case .
qed

text \<open>
  The balance is a sum of doubles: on the amounts 0.1 and 0.2 paid and 0.3 received it
  is \<open>2^-54\<close>, not 0; and the double nearest to 9007199254740993 is 9007199254740992.
\<close>

lemma digitsVal_Nil: "digitsVal [] = 0"
  by (simp add: digitsVal_def)

lemma digitsVal_example: "digitsVal ''9007199254740993'' = 9007199254740993"
  by (simp add: digitsVal_def digitVal_def)

lemma roundDouble_example: "roundDouble 9007199254740993 = 9007199254740992"
  by code_simp

lemma parseFloat_rounds: "parseFloat ascii ''9007199254740993'' = Num 9007199254740992"
proof -
  have "parseFloat ascii ''9007199254740993'' = Num (roundDouble (of_nat (digitsVal ''9007199254740993'')))"
    by (simp add: parseFloat_def ascii_def asciiTrimStart_def asciiWhiteSpace_def parseSign_def
        isDigit_def parseExponent_def scale10_def Let_def digitsVal_Nil del: of_nat_numeral)
  then show ?thesis
    by (simp add: digitsVal_example roundDouble_example)
qed

lemma computeBalance_rounds:
  "computeBalance ascii
     [sample_rohit\<lparr>amount := parseFloat ascii ''0.1''\<rparr>,
      sample_rohit\<lparr>amount := parseFloat ascii ''0.2''\<rparr>,
      sample_rohit\<lparr>amount := parseFloat ascii ''0.3'', status := They_Paid\<rparr>]
   = Num (1 / 2 ^ 54)"
  by code_simp

text \<open>
  C1. The balance of a sequence of records is the sum of the per-record contributions,
  added one after the other to a running total that starts at 0: a record with status
  They Paid contributes \<open>- amount\<close>, one with status Split contributes \<open>amount / 2\<close>, one
  with status I Paid contributes \<open>amount\<close>; the balance of the empty sequence is 0. The
  additions and the halving are those of doubles.
\<close>

theorem C1_computeBalance_sum:
  "computeBalance P es = foldl (num_add (toDouble P)) (Num 0) (map (contribution P) es)
   \<and> contribution P (e\<lparr>status := They_Paid\<rparr>) = - amount e
   \<and> contribution P (e\<lparr>status := Split\<rparr>) = num_quot (toDouble P) (amount e) (Num 2)
   \<and> contribution P (e\<lparr>status := I_Paid\<rparr>) = amount e
   \<and> contribution P (e\<lparr>status := They_Paid, amount := Num a\<rparr>) = Num (- a)
   \<and> contribution P (e\<lparr>status := Split, amount := Num a\<rparr>) = Num (toDouble P (a / 2))
   \<and> contribution P (e\<lparr>status := I_Paid, amount := Num a\<rparr>) = Num a
   \<and> computeBalance P [] = Num 0"
proof (intro conjI)
  show "computeBalance P es = foldl (num_add (toDouble P)) (Num 0) (map (contribution P) es)"
    unfolding computeBalance_def by (rule foldl_balance_step)
  show "computeBalance P [] = Num 0"
    by (simp add: computeBalance_def)
qed (simp_all add: contribution_def)

section \<open>Properties of number formatting\<close>

lemma digitVal_digitChar: "d < 10 \<Longrightarrow> digitVal (digitChar d) = d"
  by (simp add: digitVal_def digitChar_def)

lemma isDigit_digitChar: "d < 10 \<Longrightarrow> isDigit (digitChar d)"
  by (simp add: isDigit_def digitChar_def)

lemma digitsVal_snoc: "digitsVal (ds @ [c]) = 10 * digitsVal ds + digitVal c"
  by (simp add: digitsVal_def)

lemma digitsVal_showNat: "digitsVal (showNat n) = n"
proof (induction n rule: showNat.induct)
  case (1 n)
  show ?case
  proof (cases "n < 10")
    case True
    then show ?thesis
      by (subst showNat.simps) (simp add: digitsVal_def digitVal_digitChar)
  next
    case False
    then have "digitsVal (showNat n) = 10 * digitsVal (showNat (n div 10)) + n mod 10"
      by (subst showNat.simps) (simp add: digitsVal_snoc digitVal_digitChar)
    with False "1.IH" show ?thesis
      by simp
  qed
qed

lemma showNat_all_digits: "\<forall>c \<in> set (showNat n). isDigit c"
proof (induction n rule: showNat.induct)
  case (1 n)
  show ?case
  proof (cases "n < 10")
    case True
    then show ?thesis
      by (subst showNat.simps) (simp add: isDigit_digitChar)
  next
    case False
    with "1.IH" show ?thesis
      by (subst showNat.simps) (simp add: isDigit_digitChar)
  qed
qed

lemma round_half_up_near:
  fixes x :: rat
  shows "\<bar>of_int \<lfloor>x + 1 / 2\<rfloor> - x\<bar> \<le> 1 / 2"
  by linarith

section \<open>Properties of the balance label\<close>

text \<open>
  C8. For every balance the label has one of three forms, chosen by the sign: a positive
  balance gives \<open>Owes you\<close> with the magnitude, a negative balance \<open>You owe\<close> with the
  magnitude, zero gives \<open>Settled Up\<close>; no text has two of the forms. The magnitude is
  shown with no decimals: below \<open>10^21\<close> it is the digits of the nearest integer (the
  larger one on a tie), which differs from the magnitude by at most one half.
\<close>

theorem C8_balanceText_forms:
  "balanceText ts (Num x) =
     (if 0 < x then ''Owes you '' @ rupee @ toFixed0 ts (Num \<bar>x\<bar>)
      else if x < 0 then ''You owe '' @ rupee @ toFixed0 ts (Num \<bar>x\<bar>)
      else ''Settled Up'')
   \<and> (\<bar>x\<bar> < 10 ^ 21 \<longrightarrow>
        toFixed0 ts (Num \<bar>x\<bar>) = showNat (nat \<lfloor>\<bar>x\<bar> + 1 / 2\<rfloor>)
        \<and> \<bar>of_nat (nat \<lfloor>\<bar>x\<bar> + 1 / 2\<rfloor>) - \<bar>x\<bar>\<bar> \<le> 1 / 2)
   \<and> ''Owes you '' @ d \<noteq> ''You owe '' @ d'
   \<and> ''Owes you '' @ d \<noteq> ''Settled Up''
   \<and> ''You owe '' @ d \<noteq> ''Settled Up''
   \<and> balanceText ts NaN = ''Settled Up''"
proof (intro conjI impI)
  show "balanceText ts (Num x) =
     (if 0 < x then ''Owes you '' @ rupee @ toFixed0 ts (Num \<bar>x\<bar>)
      else if x < 0 then ''You owe '' @ rupee @ toFixed0 ts (Num \<bar>x\<bar>)
      else ''Settled Up'')"
    by (simp add: balanceText_def num_gt_def)
  show "balanceText ts NaN = ''Settled Up''"
    by (simp add: balanceText_def num_gt_def)
next
  assume small: "\<bar>x\<bar> < 10 ^ 21"
  then show "toFixed0 ts (Num \<bar>x\<bar>) = showNat (nat \<lfloor>\<bar>x\<bar> + 1 / 2\<rfloor>)"
    by (simp add: toFixed0_def)
  have "0 \<le> \<lfloor>\<bar>x\<bar> + 1 / 2\<rfloor>"
    by simp
  then have "rat_of_nat (nat \<lfloor>\<bar>x\<bar> + 1 / 2\<rfloor>) = of_int \<lfloor>\<bar>x\<bar> + 1 / 2\<rfloor>"
    by simp
  then show "\<bar>of_nat (nat \<lfloor>\<bar>x\<bar> + 1 / 2\<rfloor>) - \<bar>x\<bar>\<bar> \<le> 1 / 2"
    using round_half_up_near [of "\<bar>x\<bar>"] by simp
qed simp_all

theorem C8_balanceText_forms_witness:
  "balanceText (\<lambda>_. []) (Num (- 401 / 2)) = ''You owe '' @ rupee @ ''201''
   \<and> \<bar>- 401 / 2 :: rat\<bar> < 10 ^ 21"
proof -
  have d: "showNat 201 = ''201''"
    by code_simp
  have f: "\<lfloor>\<bar>- 401 / 2 :: rat\<bar> + 1 / 2\<rfloor> = 201"
    by simp
  show ?thesis
    using C8_balanceText_forms [of "\<lambda>_. []" "- 401 / 2"] d f by simp
qed

section \<open>Properties of the search\<close>

lemma asciiLowerCase_eq_Nil: "(asciiLowerCase s = []) = (s = [])"
  by (simp add: asciiLowerCase_def)

lemma matchesQuery_sublist:
  assumes "query \<noteq> []"
  shows "matchesQuery P query e \<longleftrightarrow>
    (sublist query (toLowerCase P (person e))
     \<or> (case label e of None \<Rightarrow> sublist query [] | Some l \<Rightarrow> sublist query (toLowerCase P l))
     \<or> sublist query (numberToString P (amount e))
     \<or> sublist query (toLowerCase P (modeName (mode e))))"
proof (cases "label e")
  case None
  with assms show ?thesis
    by (simp add: matchesQuery_def str_includes_def)
next
  case (Some l)
  then show ?thesis
    by (simp add: matchesQuery_def str_includes_def)
qed

text \<open>
  C6. With an empty query the search returns its input unchanged. With a non-empty query
  it returns, in their order, exactly the records for which the lowercased query is a
  contiguous part of the lowercased person, of the lowercased label (of the empty string
  when the label is absent), of the string form of the amount, or of the lowercased mode
  name. Queries with the same lowercased form give the same result: the match does not
  depend on the case of the query. Lowercasing is that of the platform, of which the
  proof uses only that it maps the empty string, and no other, to the empty string.
\<close>

theorem C6_filteredExpenses:
  assumes "\<And>s. (toLowerCase P s = []) = (s = [])"
  shows "filteredExpenses P [] es = es
   \<and> (sq \<noteq> [] \<longrightarrow>
        filteredExpenses P sq es =
          filter (\<lambda>e. sublist (toLowerCase P sq) (toLowerCase P (person e))
                    \<or> (case label e of
                          None \<Rightarrow> sublist (toLowerCase P sq) []
                        | Some l \<Rightarrow> sublist (toLowerCase P sq) (toLowerCase P l))
                    \<or> sublist (toLowerCase P sq) (numberToString P (amount e))
                    \<or> sublist (toLowerCase P sq) (toLowerCase P (modeName (mode e)))) es)
   \<and> (toLowerCase P sq = toLowerCase P sq' \<longrightarrow>
        filteredExpenses P sq es = filteredExpenses P sq' es)"
proof (intro conjI impI)
  show "filteredExpenses P [] es = es"
    by (simp add: filteredExpenses_def)
next
  assume ne: "sq \<noteq> []"
  then have "toLowerCase P sq \<noteq> []"
    by (simp add: assms)
  then have "matchesQuery P (toLowerCase P sq) =
    (\<lambda>e. sublist (toLowerCase P sq) (toLowerCase P (person e))
         \<or> (case label e of
               None \<Rightarrow> sublist (toLowerCase P sq) []
             | Some l \<Rightarrow> sublist (toLowerCase P sq) (toLowerCase P l))
         \<or> sublist (toLowerCase P sq) (numberToString P (amount e))
         \<or> sublist (toLowerCase P sq) (toLowerCase P (modeName (mode e))))"
    by (intro ext) (rule matchesQuery_sublist)
  with ne show "filteredExpenses P sq es =
          filter (\<lambda>e. sublist (toLowerCase P sq) (toLowerCase P (person e))
                    \<or> (case label e of
                          None \<Rightarrow> sublist (toLowerCase P sq) []
                        | Some l \<Rightarrow> sublist (toLowerCase P sq) (toLowerCase P l))
                    \<or> sublist (toLowerCase P sq) (numberToString P (amount e))
                    \<or> sublist (toLowerCase P sq) (toLowerCase P (modeName (mode e)))) es"
    by (simp add: filteredExpenses_def)
next
  assume eq: "toLowerCase P sq = toLowerCase P sq'"
  have "(sq = []) = (toLowerCase P sq = [])" and "(sq' = []) = (toLowerCase P sq' = [])"
    by (simp_all add: assms)
  with eq have "sq = [] \<longleftrightarrow> sq' = []"
    by simp
  with eq show "filteredExpenses P sq es = filteredExpenses P sq' es"
    by (simp add: filteredExpenses_def)
qed

theorem C6_filteredExpenses_witness:
  "''ROHIT'' \<noteq> [] \<and> toLowerCase ascii ''ROHIT'' = toLowerCase ascii ''rohit''
   \<and> filteredExpenses ascii ''ROHIT'' [sample_rohit, sample_asha] = [sample_rohit]
   \<and> filteredExpenses ascii ''rohit'' [sample_rohit, sample_asha] = [sample_rohit]
   \<and> filteredExpenses ascii ''20'' [sample_rohit, sample_asha] = [sample_rohit, sample_asha]
   \<and> filteredExpenses ascii ''TEA'' [sample_rohit, sample_asha] = [sample_asha]"
proof -
  have hyp: "(toLowerCase ascii s = []) = (s = [])" for s
    by (simp add: ascii_def asciiLowerCase_eq_Nil)
  note c6 = C6_filteredExpenses [of ascii, OF hyp]
  have low: "toLowerCase ascii ''ROHIT'' = ''rohit''" "toLowerCase ascii ''rohit'' = ''rohit''"
    "toLowerCase ascii ''Rohit'' = ''rohit''" "toLowerCase ascii ''Asha'' = ''asha''"
    "toLowerCase ascii ''tea'' = ''tea''" "toLowerCase ascii ''TEA'' = ''tea''"
    "toLowerCase ascii ''UPI'' = ''upi''" "toLowerCase ascii ''Cash'' = ''cash''"
    "toLowerCase ascii ''20'' = ''20''"
    by code_simp+
  have str: "numberToString ascii (Num 120) = ''120''" "numberToString ascii (Num 200) = ''200''"
    by code_simp+
  have sub: "sublist ''rohit'' ''rohit''" "\<not> sublist ''rohit'' ''asha''"
    "\<not> sublist ''rohit'' ''tea''" "\<not> sublist ''rohit'' ''upi''"
    "\<not> sublist ''rohit'' ''cash''" "\<not> sublist ''rohit'' []"
    "\<not> sublist ''rohit'' ''120''" "\<not> sublist ''rohit'' ''200''"
    "sublist ''20'' ''120''" "sublist ''20'' ''200''"
    "\<not> sublist ''tea'' ''rohit''" "\<not> sublist ''tea'' []" "\<not> sublist ''tea'' ''120''"
    "\<not> sublist ''tea'' ''upi''" "sublist ''tea'' ''tea''"
    by code_simp+
  have ne: "''ROHIT'' \<noteq> []" "''20'' \<noteq> []" "''TEA'' \<noteq> []"
    by simp_all
  have upper: "filteredExpenses ascii ''ROHIT'' [sample_rohit, sample_asha] = [sample_rohit]"
    using c6 [THEN conjunct2, THEN conjunct1, rule_format, OF ne(1)]
    by (simp add: low sub str sample_rohit_def sample_asha_def)
  have same: "filteredExpenses ascii ''ROHIT'' [sample_rohit, sample_asha]
      = filteredExpenses ascii ''rohit'' [sample_rohit, sample_asha]"
    using c6 [THEN conjunct2, THEN conjunct2, of "''ROHIT''" "''rohit''"] by (simp only: low)
  have amount: "filteredExpenses ascii ''20'' [sample_rohit, sample_asha]
      = [sample_rohit, sample_asha]"
    using c6 [THEN conjunct2, THEN conjunct1, rule_format, OF ne(2)]
    by (simp add: low sub str sample_rohit_def sample_asha_def)
  have lab: "filteredExpenses ascii ''TEA'' [sample_rohit, sample_asha] = [sample_asha]"
    using c6 [THEN conjunct2, THEN conjunct1, rule_format, OF ne(3)]
    by (simp add: low sub str sample_rohit_def sample_asha_def)
  from ne(1) upper same amount lab show ?thesis
    by (simp only: low) simp
qed

section \<open>Properties of the reminder\<close>

lemma nudge_test_qualifies:
  "(num_gt (ageInDays now e) (Num 3) \<and> num_lt (ageInDays now e) (Num 7)) = qualifies now e"
  by (cases "timestamp e") (simp_all add: ageInDays_def num_gt_def qualifies_def specAge_def)

lemma nudgeItem_find: "nudgeItem now es = find (qualifies now) es"
  by (simp add: nudgeItem_def nudge_test_qualifies)

lemma find_Some_split:
  "find P xs = Some x \<longleftrightarrow> (\<exists>pre post. xs = pre @ x # post \<and> P x \<and> (\<forall>y \<in> set pre. \<not> P y))"
proof (induction xs)
  case Nil
  show ?case by simp
next
  case (Cons a xs)
  show ?case
  proof (cases "P a")
    case True
    have "(\<exists>pre post. a # xs = pre @ x # post \<and> P x \<and> (\<forall>y \<in> set pre. \<not> P y)) \<longleftrightarrow> a = x"
    proof
      assume "\<exists>pre post. a # xs = pre @ x # post \<and> P x \<and> (\<forall>y \<in> set pre. \<not> P y)"
      then obtain pre post where d: "a # xs = pre @ x # post" and n: "\<forall>y \<in> set pre. \<not> P y"
        by blast
      show "a = x"
      proof (cases pre)
        case Nil
        with d show ?thesis by simp
      next
        case (Cons b pre')
        with d have "b = a" by simp
        with Cons n True show ?thesis by simp
      qed
    next
      assume "a = x"
      with True have "a # xs = [] @ x # xs \<and> P x \<and> (\<forall>y \<in> set []. \<not> P y)"
        by simp
      then show "\<exists>pre post. a # xs = pre @ x # post \<and> P x \<and> (\<forall>y \<in> set pre. \<not> P y)"
        by blast
    qed
    with True show ?thesis by simp
  next
    case False
    have "(\<exists>pre post. a # xs = pre @ x # post \<and> P x \<and> (\<forall>y \<in> set pre. \<not> P y))
      \<longleftrightarrow> (\<exists>pre post. xs = pre @ x # post \<and> P x \<and> (\<forall>y \<in> set pre. \<not> P y))"
    proof
      assume "\<exists>pre post. a # xs = pre @ x # post \<and> P x \<and> (\<forall>y \<in> set pre. \<not> P y)"
      then obtain pre post where d: "a # xs = pre @ x # post" and px: "P x"
        and n: "\<forall>y \<in> set pre. \<not> P y"
        by blast
      show "\<exists>pre post. xs = pre @ x # post \<and> P x \<and> (\<forall>y \<in> set pre. \<not> P y)"
      proof (cases pre)
        case Nil
        with d px False show ?thesis by simp
      next
        case (Cons b pre')
        with d n px have "xs = pre' @ x # post \<and> P x \<and> (\<forall>y \<in> set pre'. \<not> P y)"
          by simp
        then show ?thesis by blast
      qed
    next
      assume "\<exists>pre post. xs = pre @ x # post \<and> P x \<and> (\<forall>y \<in> set pre. \<not> P y)"
      then obtain pre post where "xs = pre @ x # post" "P x" "\<forall>y \<in> set pre. \<not> P y"
        by blast
      with False have "a # xs = (a # pre) @ x # post \<and> P x \<and> (\<forall>y \<in> set (a # pre). \<not> P y)"
        by simp
      then show "\<exists>pre post. a # xs = pre @ x # post \<and> P x \<and> (\<forall>y \<in> set pre. \<not> P y)"
        by blast
    qed
    with False Cons.IH show ?thesis by simp
  qed
qed

text \<open>
  C7. The reminder scan returns the first record, in the order of the list, whose age in
  days \<open>(now - timestamp) / 86400000\<close> lies strictly between 3 and 7, and nothing when no
  record qualifies. A record aged exactly 2, 3, 7 or 8 days does not qualify and is
  never the one returned.
\<close>

theorem C7_nudgeItem:
  "(nudgeItem now es = None \<longleftrightarrow> (\<forall>x \<in> set es. \<not> qualifies now x))
   \<and> (nudgeItem now es = Some e \<longleftrightarrow>
        (\<exists>pre post. es = pre @ e # post \<and> qualifies now e \<and> (\<forall>x \<in> set pre. \<not> qualifies now x)))
   \<and> (specAge now e \<in> {Some 2, Some 3, Some 7, Some 8} \<longrightarrow>
        \<not> qualifies now e \<and> nudgeItem now es \<noteq> Some e)"
proof (intro conjI impI)
  show "nudgeItem now es = None \<longleftrightarrow> (\<forall>x \<in> set es. \<not> qualifies now x)"
    by (auto simp: nudgeItem_find find_None_iff)
  show split: "nudgeItem now es = Some e \<longleftrightarrow>
        (\<exists>pre post. es = pre @ e # post \<and> qualifies now e \<and> (\<forall>x \<in> set pre. \<not> qualifies now x))"
    by (simp only: nudgeItem_find find_Some_split)
  assume "specAge now e \<in> {Some 2, Some 3, Some 7, Some 8}"
  then show nq: "\<not> qualifies now e"
    by (auto simp: qualifies_def)
  with split show "nudgeItem now es \<noteq> Some e"
    by blast
qed

theorem C7_nudgeItem_witness:
  "nudgeItem 864000000
     [sample_aged 864000000 2, sample_aged 864000000 3, sample_aged 864000000 4,
      sample_aged 864000000 5] = Some (sample_aged 864000000 4)
   \<and> specAge 864000000 (sample_aged 864000000 3) \<in> {Some 2, Some 3, Some 7, Some 8}
   \<and> nudgeItem 864000000 [sample_aged 864000000 3] \<noteq> Some (sample_aged 864000000 3)
   \<and> nudgeItem 864000000 [sample_aged 864000000 8, sample_aged 864000000 7] = None"
proof -
  have age: "specAge 864000000 (sample_aged 864000000 d) = Some (of_int d)" for d
    by (simp add: specAge_def sample_aged_def)
  have q: "qualifies 864000000 (sample_aged 864000000 d) \<longleftrightarrow> 3 < d \<and> d < 7" for d
    by (simp add: qualifies_def age)
  have first: "nudgeItem 864000000
     [sample_aged 864000000 2, sample_aged 864000000 3, sample_aged 864000000 4,
      sample_aged 864000000 5] = Some (sample_aged 864000000 4)"
  proof -
    have "[sample_aged 864000000 2, sample_aged 864000000 3, sample_aged 864000000 4,
           sample_aged 864000000 5]
          = [sample_aged 864000000 2, sample_aged 864000000 3] @ sample_aged 864000000 4
              # [sample_aged 864000000 5]
        \<and> qualifies 864000000 (sample_aged 864000000 4)
        \<and> (\<forall>x \<in> set [sample_aged 864000000 2, sample_aged 864000000 3].
              \<not> qualifies 864000000 x)"
      by (simp add: q)
    then show ?thesis
      using C7_nudgeItem [THEN conjunct2, THEN conjunct1] by blast
  qed
  have three: "specAge 864000000 (sample_aged 864000000 3) \<in> {Some 2, Some 3, Some 7, Some 8}"
    by (simp add: age)
  have never: "nudgeItem 864000000 [sample_aged 864000000 3] \<noteq> Some (sample_aged 864000000 3)"
    using C7_nudgeItem [THEN conjunct2, THEN conjunct2, rule_format, OF three] by blast
  have none: "nudgeItem 864000000 [sample_aged 864000000 8, sample_aged 864000000 7] = None"
    using C7_nudgeItem [THEN conjunct1,
        of 864000000 "[sample_aged 864000000 8, sample_aged 864000000 7]"]
    by (simp add: q)
  from first three never none show ?thesis
    by blast
qed

section \<open>Properties of the form\<close>







lemma sample_parse: "parseFloat ascii ''0'' = Num 0" "parseFloat ascii ''50'' = Num 50"
  by code_simp+

lemma sample_trim:
  "trim ascii ''Rohit'' = ''Rohit''" "trim ascii '' Rohit '' = ''Rohit''"
  "trim ascii '' chai '' = ''chai''" "trim ascii ''  '' = []" "trim ascii [] = []"
  by (simp_all add: ascii_def asciiTrim_def asciiWhiteSpace_def)

text \<open>
  A record with the empty person enters the active set and the store only while a search
  hides it from \<^verbatim>\<open>Home\<close>: here the query is \<^verbatim>\<open>rohit\<close>.
\<close>

lemma blank_person_stored_when_hidden:
  "map_option (map person)
     (activeSet (saveClicked ascii sample_form_blank ''k3x9q0'' 1000
        ((initialState Map.empty)\<lparr>searchQuery := ''rohit''\<rparr>)))
   = Some [[]]"
proof -
  have low: "toLowerCase ascii ''rohit'' = ''rohit''" "toLowerCase ascii [] = []"
    "toLowerCase ascii ''chai'' = ''chai''" "toLowerCase ascii ''UPI'' = ''upi''"
    by code_simp+
  have str: "numberToString ascii (Num 50) = ''50''"
    by code_simp
  have sub: "\<not> sublist ''rohit'' []" "\<not> sublist ''rohit'' ''chai''"
    "\<not> sublist ''rohit'' ''50''" "\<not> sublist ''rohit'' ''upi''"
    by code_simp+
  show ?thesis
    by (simp add: saveClicked_def handleSave_def addExpense_def setExpenses_def setItem_def
        sample_form_blank_def initialState_def Let_def homeThrows_def filteredExpenses_def
        matchesQuery_def str_includes_def activeSet_def sample_trim sample_parse low str sub)
qed







section \<open>Properties of archive and undo\<close>

lemma keys_distinct: "STORAGE_KEY \<noteq> ARCHIVE_KEY"
  by (simp add: STORAGE_KEY_def ARCHIVE_KEY_def)

lemma slice0_drops_tail: "slice0 (ar @ es) (int (length (ar @ es)) - int (length es)) = ar"
  by (simp add: slice0_def)

lemma clearUndoTimeout_fields:
  "expenses (clearUndoTimeout s) = expenses s"
  "localStorage (clearUndoTimeout s) = localStorage s"
  "lastArchivedData (clearUndoTimeout s) = lastArchivedData s"
  "showUndo (clearUndoTimeout s) = showUndo s"
  "undoTimeoutRef (clearUndoTimeout s) = undoTimeoutRef s"
  "timeoutSeq (clearUndoTimeout s) = timeoutSeq s"
  by (simp_all add: clearUndoTimeout_def clearTimeout_def split: option.splits)

lemma setUndoTimeout_fields:
  "expenses (setUndoTimeout s) = expenses s"
  "localStorage (setUndoTimeout s) = localStorage s"
  "lastArchivedData (setUndoTimeout s) = lastArchivedData s"
  "showUndo (setUndoTimeout s) = showUndo s"
  "undoTimeoutRef (setUndoTimeout s) = Some (Suc (timeoutSeq s))"
  "timeouts (setUndoTimeout s) = insert (Suc (timeoutSeq s)) (timeouts s)"
  by (simp_all add: setUndoTimeout_def Let_def)

lemma setExpenses_fields:
  "expenses (setExpenses xs s) = xs"
  "localStorage (setExpenses xs s) = (localStorage s)(STORAGE_KEY \<mapsto> Text_json xs)"
  "lastArchivedData (setExpenses xs s) = lastArchivedData s"
  "showUndo (setExpenses xs s) = showUndo s"
  "undoTimeoutRef (setExpenses xs s) = undoTimeoutRef s"
  "timeoutSeq (setExpenses xs s) = timeoutSeq s"
  by (simp_all add: setExpenses_def setItem_def JSON_stringify_def)

lemma setItem_fields:
  "expenses (setItem k v s) = expenses s"
  "localStorage (setItem k v s) = (localStorage s)(k \<mapsto> v)"
  "lastArchivedData (setItem k v s) = lastArchivedData s"
  "showUndo (setItem k v s) = showUndo s"
  "undoTimeoutRef (setItem k v s) = undoTimeoutRef s"
  "timeoutSeq (setItem k v s) = timeoutSeq s"
  by (simp_all add: setItem_def)

lemmas state_fields =
  clearUndoTimeout_fields setUndoTimeout_fields setExpenses_fields setItem_fields

lemma archiveSet_localStorage:
  "localStorage s ARCHIVE_KEY = Some (Text_json xs) \<Longrightarrow> archiveSet s = Inr xs"
  by (simp add: archiveSet_def getItemOrEmptyArray_def)

lemma archiveSet_cong:
  "localStorage s ARCHIVE_KEY = localStorage s' ARCHIVE_KEY \<Longrightarrow> archiveSet s = archiveSet s'"
  by (simp add: archiveSet_def getItemOrEmptyArray_def)

text \<open>What a successful call of \<^verbatim>\<open>archiveData\<close> leaves behind.\<close>

lemma archiveData_effect:
  assumes active: "expenses s \<noteq> []" and archive: "archiveSet s = Inr ar"
  shows "\<exists>s1. archiveData s = (None, s1)
    \<and> expenses s1 = []
    \<and> lastArchivedData s1 = expenses s
    \<and> localStorage s1 ARCHIVE_KEY = Some (Text_json (ar @ expenses s))
    \<and> showUndo s1
    \<and> undoTimeoutRef s1 = Some (Suc (timeoutSeq s))
    \<and> Suc (timeoutSeq s) \<in> timeouts s1"
proof -
  let ?s1 = "s\<lparr>lastArchivedData := expenses s\<rparr>"
  let ?s4 = "(setExpenses []
      (setItem ARCHIVE_KEY (JSON_stringify (ar @ expenses s)) ?s1))\<lparr>showUndo := True\<rparr>"
  from archive have "JSON_parse (getItemOrEmptyArray ARCHIVE_KEY ?s1) = Inr ar"
    by (simp add: archiveSet_def getItemOrEmptyArray_def)
  with active have run: "archiveData s = (None, setUndoTimeout (clearUndoTimeout ?s4))"
    by (simp add: archiveData_def Let_def)
  have "expenses (setUndoTimeout (clearUndoTimeout ?s4)) = []"
    by (simp add: state_fields)
  moreover have "lastArchivedData (setUndoTimeout (clearUndoTimeout ?s4)) = expenses s"
    by (simp add: state_fields)
  moreover have "localStorage (setUndoTimeout (clearUndoTimeout ?s4)) ARCHIVE_KEY
      = Some (Text_json (ar @ expenses s))"
    using keys_distinct by (simp add: state_fields JSON_stringify_def)
  moreover have "showUndo (setUndoTimeout (clearUndoTimeout ?s4))"
    by (simp add: state_fields)
  moreover have "undoTimeoutRef (setUndoTimeout (clearUndoTimeout ?s4)) = Some (Suc (timeoutSeq s))"
    by (simp add: state_fields)
  moreover have "Suc (timeoutSeq s) \<in> timeouts (setUndoTimeout (clearUndoTimeout ?s4))"
    by (simp add: state_fields)
  ultimately show ?thesis
    using run by blast
qed

text \<open>What a call of \<^verbatim>\<open>undoArchive\<close> does when the buffer holds the tail of the archive.\<close>

lemma undoArchive_effect:
  assumes buffer: "lastArchivedData s1 = es" "es \<noteq> []"
    and store: "localStorage s1 ARCHIVE_KEY = Some (Text_json (ar @ es))"
  shows "\<exists>s2. undoArchive s1 = (None, s2) \<and> expenses s2 = es \<and> archiveSet s2 = Inr ar
    \<and> lastArchivedData s2 = [] \<and> \<not> showUndo s2"
proof -
  let ?t1 = "setExpenses es s1"
  let ?t4 = "(setItem ARCHIVE_KEY (JSON_stringify ar) ?t1)
      \<lparr>lastArchivedData := [], showUndo := False\<rparr>"
  from store have "localStorage ?t1 ARCHIVE_KEY = Some (Text_json (ar @ es))"
    using keys_distinct by (simp add: state_fields)
  then have parse: "JSON_parse (getItemOrEmptyArray ARCHIVE_KEY ?t1) = Inr (ar @ es)"
    by (simp add: getItemOrEmptyArray_def)
  have "slice0 (ar @ es) (int (length (ar @ es)) - int (length (lastArchivedData ?t1))) = ar"
    using buffer(1) slice0_drops_tail [of ar es] by (simp add: state_fields)
  with buffer parse have run: "undoArchive s1 = (None, clearUndoTimeout ?t4)"
    by (simp add: undoArchive_def Let_def)
  have "expenses (clearUndoTimeout ?t4) = es"
    by (simp add: state_fields)
  moreover have "localStorage (clearUndoTimeout ?t4) ARCHIVE_KEY = Some (Text_json ar)"
    by (simp add: state_fields JSON_stringify_def)
  then have "archiveSet (clearUndoTimeout ?t4) = Inr ar"
    by (rule archiveSet_localStorage)
  moreover have "lastArchivedData (clearUndoTimeout ?t4) = []"
    by (simp add: state_fields)
  moreover have "\<not> showUndo (clearUndoTimeout ?t4)"
    by (simp add: state_fields)
  ultimately show ?thesis
    using run by blast
qed

text \<open>
  C2. For every non-empty active set and every archive set, \<^verbatim>\<open>archiveData\<close> followed at
  once by \<^verbatim>\<open>undoArchive\<close> (also when requested through the Undo button) both complete,
  restore the active set to its records before the archive, in their order, and leave
  the archive set as it was before the archive, so with its length.
\<close>

theorem C2_undo_after_archive:
  assumes "expenses s \<noteq> []" and "archiveSet s = Inr ar"
  shows "\<exists>s1 s2. archiveData s = (None, s1) \<and> undoArchive s1 = (None, s2)
    \<and> undoClicked s1 = (None, s2)
    \<and> expenses s2 = expenses s \<and> archiveSet s2 = Inr ar"
proof -
  from archiveData_effect [OF assms] obtain s1 where
    a: "archiveData s = (None, s1)" and b: "lastArchivedData s1 = expenses s"
    and st: "localStorage s1 ARCHIVE_KEY = Some (Text_json (ar @ expenses s))"
    and sh: "showUndo s1"
    by blast
  from undoArchive_effect [OF b assms(1) st] obtain s2 where
    u: "undoArchive s1 = (None, s2)" and r: "expenses s2 = expenses s" "archiveSet s2 = Inr ar"
    by blast
  from sh u have "undoClicked s1 = (None, s2)"
    by (simp add: undoClicked_def)
  with a u r show ?thesis
    by blast
qed

lemma sample_state_facts:
  "expenses sample_state = [sample_rohit]" "archiveSet sample_state = Inr [sample_asha]"
  "timeoutSeq sample_state = 0"
  by (simp_all add: sample_state_def initialState_def archiveSet_def getItemOrEmptyArray_def)

theorem C2_undo_after_archive_witness:
  "expenses sample_state \<noteq> [] \<and> archiveSet sample_state = Inr [sample_asha]
   \<and> fst (archiveData sample_state) = None
   \<and> fst (undoArchive (snd (archiveData sample_state))) = None
   \<and> expenses (snd (undoArchive (snd (archiveData sample_state)))) = [sample_rohit]
   \<and> archiveSet (snd (undoArchive (snd (archiveData sample_state)))) = Inr [sample_asha]"
proof -
  have ne: "expenses sample_state \<noteq> []"
    by (simp add: sample_state_facts)
  from C2_undo_after_archive [OF ne sample_state_facts(2)] obtain s1 s2 where
    "archiveData sample_state = (None, s1)" "undoArchive s1 = (None, s2)"
    "expenses s2 = expenses sample_state" "archiveSet s2 = Inr [sample_asha]"
    by blast
  with ne show ?thesis
    by (simp add: sample_state_facts)
qed

lemma timeoutFired_fields:
  "expenses (timeoutFired h s) = expenses s"
  "localStorage (timeoutFired h s) = localStorage s"
  "lastArchivedData (timeoutFired h s) = lastArchivedData s"
  by (simp_all add: timeoutFired_def)

text \<open>
  C3 (as amended). When the timeout set by \<^verbatim>\<open>archiveData\<close> expires without an undo, the
  Undo button is withdrawn (\<^verbatim>\<open>showUndo\<close> becomes false), and the expiry itself changes
  neither the active set nor the archive set. From then on a request to undo, which can
  only come through that button, changes nothing. The buffer is kept: it still holds
  the archived records.
\<close>

theorem C3_after_expiry:
  assumes "expenses s \<noteq> []" and "archiveSet s = Inr ar"
  shows "\<exists>s1 h. archiveData s = (None, s1) \<and> undoTimeoutRef s1 = Some h \<and> h \<in> timeouts s1
    \<and> showUndo s1
    \<and> \<not> showUndo (timeoutFired h s1)
    \<and> expenses (timeoutFired h s1) = expenses s1
    \<and> archiveSet (timeoutFired h s1) = archiveSet s1
    \<and> undoClicked (timeoutFired h s1) = (None, timeoutFired h s1)
    \<and> lastArchivedData (timeoutFired h s1) = expenses s"
proof -
  from archiveData_effect [OF assms] obtain s1 where
    a: "archiveData s = (None, s1)" and b: "lastArchivedData s1 = expenses s"
    and sh: "showUndo s1"
    and ref: "undoTimeoutRef s1 = Some (Suc (timeoutSeq s))"
    and pending: "Suc (timeoutSeq s) \<in> timeouts s1"
    by blast
  let ?h = "Suc (timeoutSeq s)"
  from pending have hidden: "\<not> showUndo (timeoutFired ?h s1)"
    by (simp add: timeoutFired_def)
  then have noop: "undoClicked (timeoutFired ?h s1) = (None, timeoutFired ?h s1)"
    by (simp add: undoClicked_def)
  have same: "archiveSet (timeoutFired ?h s1) = archiveSet s1"
    by (rule archiveSet_cong) (simp add: timeoutFired_fields)
  from a ref pending sh hidden same noop b show ?thesis
    by (auto simp: timeoutFired_fields)
qed

theorem C3_after_expiry_witness:
  "expenses sample_state \<noteq> [] \<and> archiveSet sample_state = Inr [sample_asha]
   \<and> undoTimeoutRef (snd (archiveData sample_state)) = Some 1
   \<and> \<not> showUndo (timeoutFired 1 (snd (archiveData sample_state)))
   \<and> undoClicked (timeoutFired 1 (snd (archiveData sample_state)))
       = (None, timeoutFired 1 (snd (archiveData sample_state)))"
proof -
  have ne: "expenses sample_state \<noteq> []"
    by (simp add: sample_state_facts)
  from archiveData_effect [OF ne sample_state_facts(2)] obtain t where
    t: "archiveData sample_state = (None, t)" "undoTimeoutRef t = Some (Suc (timeoutSeq sample_state))"
    by blast
  from C3_after_expiry [OF ne sample_state_facts(2)] obtain s1 h where
    "archiveData sample_state = (None, s1)" "undoTimeoutRef s1 = Some h"
    "\<not> showUndo (timeoutFired h s1)"
    "undoClicked (timeoutFired h s1) = (None, timeoutFired h s1)"
    by blast
  with t ne show ?thesis
    by (simp add: sample_state_facts)
qed

text \<open>
  The claim as stated fails: after the archive of the sample state and the expiry of its
  timeout, the buffer still holds the archived record, and \<^verbatim>\<open>undoArchive\<close>, called then,
  puts it back into the active set and takes it out of the archive set.
\<close>

theorem C3_counterexample:
  "lastArchivedData (timeoutFired 1 (snd (archiveData sample_state))) = [sample_rohit]
   \<and> expenses (timeoutFired 1 (snd (archiveData sample_state))) = []
   \<and> expenses (snd (undoArchive (timeoutFired 1 (snd (archiveData sample_state))))) = [sample_rohit]
   \<and> archiveSet (timeoutFired 1 (snd (archiveData sample_state))) = Inr [sample_asha, sample_rohit]
   \<and> archiveSet (snd (undoArchive (timeoutFired 1 (snd (archiveData sample_state)))))
       = Inr [sample_asha]"
proof -
  have ne: "expenses sample_state \<noteq> []"
    by (simp add: sample_state_facts)
  from archiveData_effect [OF ne sample_state_facts(2)] obtain s1 where
    a: "archiveData sample_state = (None, s1)" and e: "expenses s1 = []"
    and b: "lastArchivedData s1 = [sample_rohit]"
    and st: "localStorage s1 ARCHIVE_KEY = Some (Text_json ([sample_asha] @ [sample_rohit]))"
    by (auto simp: sample_state_facts)
  let ?s2 = "timeoutFired 1 s1"
  have b2: "lastArchivedData ?s2 = [sample_rohit]"
    using b by (simp add: timeoutFired_fields)
  have st2: "localStorage ?s2 ARCHIVE_KEY = Some (Text_json ([sample_asha] @ [sample_rohit]))"
    using st by (simp add: timeoutFired_fields)
  from undoArchive_effect [OF b2 _ st2] obtain s3 where
    "undoArchive ?s2 = (None, s3)" "expenses s3 = [sample_rohit]" "archiveSet s3 = Inr [sample_asha]"
    by blast
  moreover have "archiveSet ?s2 = Inr [sample_asha, sample_rohit]"
    using archiveSet_localStorage [OF st2] by simp
  moreover have "expenses ?s2 = []"
    using e by (simp add: timeoutFired_fields)
  ultimately show ?thesis
    using a b2 by simp
qed

lemma addExpense_expenses:
  "\<exists>e. expenses (addExpense x rid now s) = e # expenses s
     \<and> timestamp e = Num (of_int now) \<and> id' e = rid"
  by (simp add: addExpense_def Let_def state_fields)

text \<open>
  C5 (as amended). For every call of \<^verbatim>\<open>archiveData\<close> on a non-empty active set, the batch
  appended to the archive set is the active set itself, in the order of the active set,
  placed after what the archive set held before. The active set has its most recently
  added record first, since \<^verbatim>\<open>addExpense\<close> puts each new record in front.
\<close>

theorem C5_archive_batch_order:
  assumes "expenses s \<noteq> []" and "archiveSet s = Inr ar"
  shows "appendedBatch s = expenses s
    \<and> archiveSet (snd (archiveData s)) = Inr (ar @ expenses s)
    \<and> tl (expenses (addExpense x rid now s)) = expenses s
    \<and> timestamp (hd (expenses (addExpense x rid now s))) = Num (of_int now)"
proof -
  from archiveData_effect [OF assms] obtain s1 where
    a: "archiveData s = (None, s1)"
    and st: "localStorage s1 ARCHIVE_KEY = Some (Text_json (ar @ expenses s))"
    by blast
  from st have after: "archiveSet s1 = Inr (ar @ expenses s)"
    by (rule archiveSet_localStorage)
  with a assms(2) have "appendedBatch s = expenses s"
    by (simp add: appendedBatch_def)
  moreover obtain e where "expenses (addExpense x rid now s) = e # expenses s"
    "timestamp e = Num (of_int now)"
    using addExpense_expenses [of x rid now s] by blast
  ultimately show ?thesis
    using a after by simp
qed

lemma sample_two_facts:
  "map timestamp (expenses sample_two) = [Num 2000, Num 1000]"
  "archiveSet sample_two = Inr []"
  by (simp_all add: sample_two_def addExpense_def Let_def state_fields initialState_def
      archiveSet_def getItemOrEmptyArray_def setExpenses_def setItem_def keys_distinct
      keys_distinct [symmetric])

theorem C5_archive_batch_order_witness:
  "expenses sample_two \<noteq> [] \<and> archiveSet sample_two = Inr []
   \<and> map timestamp (appendedBatch sample_two) = [Num 2000, Num 1000]
   \<and> archiveSet (snd (archiveData sample_two)) = Inr (expenses sample_two)"
proof -
  have ne: "expenses sample_two \<noteq> []"
    using sample_two_facts(1) by auto
  from C5_archive_batch_order [OF ne sample_two_facts(2)]
  have "appendedBatch sample_two = expenses sample_two"
    "archiveSet (snd (archiveData sample_two)) = Inr ([] @ expenses sample_two)"
    by blast+
  with ne show ?thesis
    by (simp add: sample_two_facts)
qed

text \<open>
  The claim as stated fails: after two saves, at clock readings 1000 and 2000, the
  archive appends the record of 2000 before the record of 1000, newest first.
\<close>

theorem C5_counterexample:
  "expenses sample_two \<noteq> []
   \<and> map timestamp (appendedBatch sample_two) = [Num 2000, Num 1000]
   \<and> \<not> oldestFirst (appendedBatch sample_two)"
proof -
  have ne: "expenses sample_two \<noteq> []"
    using sample_two_facts(1) by auto
  from archiveData_effect [OF ne sample_two_facts(2)] obtain s1 where
    a: "archiveData sample_two = (None, s1)"
    and st: "localStorage s1 ARCHIVE_KEY = Some (Text_json ([] @ expenses sample_two))"
    by blast
  from archiveSet_localStorage [OF st] a have batch: "appendedBatch sample_two = expenses sample_two"
    by (simp add: appendedBatch_def sample_two_facts)
  then have ts: "map timestamp (appendedBatch sample_two) = [Num 2000, Num 1000]"
    by (simp add: sample_two_facts)
  have "oldestFirst es \<Longrightarrow> sorted_wrt (\<lambda>a b. \<not> num_gt a b) (map timestamp es)" for es
    by (simp add: oldestFirst_def sorted_wrt_map)
  from this [of "appendedBatch sample_two"] ts have "\<not> oldestFirst (appendedBatch sample_two)"
    by (auto simp: num_gt_def)
  with ne ts show ?thesis
    by blast
qed

section \<open>Properties of loading\<close>

text \<open>
  C4 (as amended). When nothing is stored under the active-set key, or the empty text,
  \<^verbatim>\<open>load\<close> raises no error and leaves the state, so the empty active set of the start, as
  it is. When the stored text is the serialisation of a list of records, that list
  becomes the active set. When the stored text is corrupt, the \<^verbatim>\<open>SyntaxError\<close> of
  \<^verbatim>\<open>JSON.parse\<close> leaves \<^verbatim>\<open>load\<close> uncaught; the state is unchanged.
\<close>

theorem C4_load_cases:
  "(localStorage s STORAGE_KEY = None \<or> localStorage s STORAGE_KEY = Some Text_empty \<longrightarrow>
      load s = (None, s))
   \<and> (localStorage s STORAGE_KEY = Some (Text_json xs) \<longrightarrow>
      load s = (None, setExpenses xs s) \<and> expenses (snd (load s)) = xs)
   \<and> (localStorage s STORAGE_KEY = Some Text_malformed \<longrightarrow>
      load s = (Some SyntaxError, s))
   \<and> expenses (initialState store) = []"
proof (intro conjI impI)
  assume "localStorage s STORAGE_KEY = None \<or> localStorage s STORAGE_KEY = Some Text_empty"
  then show "load s = (None, s)"
    by (auto simp: load_def)
next
  assume "localStorage s STORAGE_KEY = Some (Text_json xs)"
  then show "load s = (None, setExpenses xs s)" and "expenses (snd (load s)) = xs"
    by (simp_all add: load_def setExpenses_fields)
next
  assume "localStorage s STORAGE_KEY = Some Text_malformed"
  then show "load s = (Some SyntaxError, s)"
    by (simp add: load_def)
next
  show "expenses (initialState store) = []"
    by (simp add: initialState_def)
qed

theorem C4_load_cases_witness:
  "localStorage (initialState Map.empty) STORAGE_KEY = None
   \<and> load (initialState Map.empty) = (None, initialState Map.empty)
   \<and> localStorage (initialState (Map.empty(STORAGE_KEY \<mapsto> Text_json [sample_rohit]))) STORAGE_KEY
       = Some (Text_json [sample_rohit])
   \<and> expenses (snd (load (initialState (Map.empty(STORAGE_KEY \<mapsto> Text_json [sample_rohit])))))
       = [sample_rohit]
   \<and> localStorage (initialState (Map.empty(STORAGE_KEY \<mapsto> Text_malformed))) STORAGE_KEY
       = Some Text_malformed
   \<and> fst (load (initialState (Map.empty(STORAGE_KEY \<mapsto> Text_malformed)))) = Some SyntaxError"
proof -
  have absent: "localStorage (initialState Map.empty) STORAGE_KEY = None"
    by (simp add: initialState_def)
  have json: "localStorage (initialState (Map.empty(STORAGE_KEY \<mapsto> Text_json [sample_rohit])))
      STORAGE_KEY = Some (Text_json [sample_rohit])"
    by (simp add: initialState_def)
  have bad: "localStorage (initialState (Map.empty(STORAGE_KEY \<mapsto> Text_malformed))) STORAGE_KEY
      = Some Text_malformed"
    by (simp add: initialState_def)
  have "load (initialState Map.empty) = (None, initialState Map.empty)"
    using C4_load_cases [THEN conjunct1, rule_format, OF disjI1, OF absent] .
  moreover have "expenses (snd (load (initialState
      (Map.empty(STORAGE_KEY \<mapsto> Text_json [sample_rohit]))))) = [sample_rohit]"
    using C4_load_cases [THEN conjunct2, THEN conjunct1, rule_format, OF json] by blast
  moreover have "fst (load (initialState (Map.empty(STORAGE_KEY \<mapsto> Text_malformed))))
      = Some SyntaxError"
    using C4_load_cases [THEN conjunct2, THEN conjunct2, THEN conjunct1, rule_format, OF bad]
    by simp
  ultimately show ?thesis
    using absent json bad by blast
qed

text \<open>
  The claim as stated fails: with corrupt text under the active-set key, \<^verbatim>\<open>load\<close> ends
  with the \<^verbatim>\<open>SyntaxError\<close> instead of returning the empty record set.
\<close>

theorem C4_counterexample:
  "load (initialState (Map.empty(STORAGE_KEY \<mapsto> Text_malformed)))
     = (Some SyntaxError, initialState (Map.empty(STORAGE_KEY \<mapsto> Text_malformed)))"
  by (simp add: load_def initialState_def)

end
